theory Spec2Isabelle
  imports Main "HOL-Library.Word"
begin

unbundle bit_operations_syntax

section \<open>The APU controller of Core/APU.cpp\<close>

text \<open>
  The controller owns two cycle counters and the console model, and drives six
  collaborators (two square channels, triangle, noise, delta modulation, frame counter),
  the Blip buffer, the CPU's IRQ flags and the audio device. Only the controller is in the
  sources; the collaborators are parameters of the model. Every call the controller makes
  on a collaborator is applied to the collaborators' state and recorded, in program order,
  in a log, so that statements about which calls are made, and in which order, can be read
  off the log.
\<close>

subsection \<open>Enumerations\<close>

text \<open>
  Modelled from the spec: the enumerations \<open>NesModel\<close>, \<open>FrameType\<close> and \<open>IRQSource\<close>
  are declared in headers that are not among the sources. The spec gives the console
  models NTSC and PAL, the frame events Quarter and Half, and the two IRQ sources
  FrameCounter and DMC.
\<close>

datatype NesModel = NTSC | PAL

datatype FrameType = QuarterFrame | HalfFrame

datatype IRQSource = IRQ_FrameCounter | IRQ_DMC

text \<open>
  The five channel objects, named after the members of the class:
  \<open>_squareChannel[0]\<close>, \<open>_squareChannel[1]\<close>, \<open>_triangleChannel\<close>, \<open>_noiseChannel\<close>,
  \<open>_deltaModulationChannel\<close>.
\<close>

datatype channel =
  squareChannel0 | squareChannel1 | triangleChannel | noiseChannel | deltaModulationChannel

subsection \<open>Calls on the collaborators\<close>

text \<open>
  One constructor for each method the controller calls on another object and that can
  change that object. \<open>int32_t\<close> and \<open>uint32_t\<close> arguments are 32-bit words.
\<close>

datatype call =
    FrameCounter_Run "32 word"
  | FrameCounter_SetNesModel NesModel
  | FrameCounter_Reset bool
  | Channel_Run channel "32 word"
  | Channel_SetNesModel channel NesModel
  | Channel_Reset channel bool
  | Channel_SetEnabled channel bool
  | Channel_EndFrame channel
  | Channel_TickEnvelope channel
  | Channel_TickLinearCounter channel
  | Channel_TickLengthCounter channel
  | Channel_TickSweep channel
  | Blip_clock_rate nat
  | Blip_end_frame "32 word"
  | Blip_read_samples nat
  | Audio_PlayBuffer "32 word"
  | Audio_Pause
  | CPU_ClearIRQSource IRQSource

subsection \<open>State\<close>

text \<open>
  Everything outside the controller: the CPU's latched IRQ flags, and the private state
  \<open>hw\<close> of the channels, the frame counter, the Blip buffer, the output buffer and the
  audio device, of a type the model does not fix.
\<close>

record 'h world =
  irqFlag :: "IRQSource \<Rightarrow> bool"
  hw :: "'h"

text \<open>
  The controller: \<open>_nesModel\<close>, \<open>_currentCycle\<close>, \<open>_previousCycle\<close> (both \<open>uint32_t\<close>),
  whether the static \<open>APU::AudioDevice\<close> is non-null, the world, and the log of calls.
\<close>

record 'h apu =
  nesModel :: NesModel
  currentCycle :: "32 word"
  previousCycle :: "32 word"
  audioDevice :: bool
  world :: "'h world"
  calls :: "call list"

text \<open>
  The collaborators' code. \<open>perform\<close> is the effect of a call on the world. Methods that
  return a value have a second component giving the value, computed in the world before
  the call. \<open>frameCounter_Run_result n w\<close> gives, for \<open>_frameCounter->Run(cyclesToRun)\<close>
  with \<open>cyclesToRun = n\<close>: the number of cycles returned, the value of the variable
  \<open>cyclesToRun\<close> after the call (its declaration, absent, decides whether the argument
  is passed by reference; a frame counter that takes it by value returns \<open>n\<close> here), and
  the frame events for which the frame counter invokes the callback registered in the
  constructor, \<open>APU::FrameCounterTick\<close>. The queries \<open>IrqPending\<close>, \<open>NeedToRun\<close>,
  \<open>GetStatus\<close> are read-only. The four constants are those of CPU.h and APU.h.
\<close>

record 'h collaborators =
  perform :: "call \<Rightarrow> 'h world \<Rightarrow> 'h world"
  frameCounter_Run_result :: "32 word \<Rightarrow> 'h world \<Rightarrow> 32 word \<times> 32 word \<times> FrameType list"
  frameCounter_IrqPending :: "32 word \<Rightarrow> 'h world \<Rightarrow> bool"
  dmc_IrqPending :: "32 word \<Rightarrow> 'h world \<Rightarrow> bool"
  lengthCounter_NeedToRun :: "'h world \<Rightarrow> bool"
  channel_GetStatus :: "channel \<Rightarrow> 'h world \<Rightarrow> bool"
  blip_read_samples_result :: "nat \<Rightarrow> 'h world \<Rightarrow> nat"
  ClockRateNtsc :: nat
  ClockRatePal :: nat
  SamplesPerFrame :: nat
  BitsPerSample :: nat

definition invoke :: "'h collaborators \<Rightarrow> call \<Rightarrow> 'h apu \<Rightarrow> 'h apu" where
  "invoke env c s = s\<lparr>world := perform env c (world s), calls := calls s @ [c]\<rparr>"

text \<open>
  Modelled from the spec: \<open>CPU::HasIRQSource\<close> and \<open>CPU::ClearIRQSource\<close> are in CPU.h,
  not among the sources. The spec has each source as a latched flag of its own on the
  CPU's IRQ line; clearing one source leaves the other.
\<close>

definition HasIRQSource :: "IRQSource \<Rightarrow> 'h apu \<Rightarrow> bool" where
  "HasIRQSource src s = irqFlag (world s) src"

definition ClearIRQSource :: "IRQSource \<Rightarrow> 'h apu \<Rightarrow> 'h apu" where
  "ClearIRQSource src s =
     s\<lparr>world := (world s)\<lparr>irqFlag := (irqFlag (world s))(src := False)\<rparr>,
       calls := calls s @ [CPU_ClearIRQSource src]\<rparr>"

subsection \<open>APU::FrameCounterTick\<close>

definition FrameCounterTick :: "'h collaborators \<Rightarrow> FrameType \<Rightarrow> 'h apu \<Rightarrow> 'h apu" where
  "FrameCounterTick env type s =
     (let s1 = invoke env (Channel_TickEnvelope squareChannel0) s;
          s2 = invoke env (Channel_TickEnvelope squareChannel1) s1;
          s3 = invoke env (Channel_TickLinearCounter triangleChannel) s2;
          s4 = invoke env (Channel_TickEnvelope noiseChannel) s3
      in if type = HalfFrame then
           (let s5 = invoke env (Channel_TickLengthCounter squareChannel0) s4;
                s6 = invoke env (Channel_TickLengthCounter squareChannel1) s5;
                s7 = invoke env (Channel_TickLengthCounter triangleChannel) s6;
                s8 = invoke env (Channel_TickLengthCounter noiseChannel) s7;
                s9 = invoke env (Channel_TickSweep squareChannel0) s8
            in invoke env (Channel_TickSweep squareChannel1) s9)
         else s4)"

subsection \<open>APU::Run\<close>

text \<open>
  One pass through the body of the \<open>while\<close> loop, from the value \<open>ctr\<close> of the local
  \<open>cyclesToRun\<close> and the state \<open>s\<close>: the frame counter runs (and calls back
  \<open>FrameCounterTick\<close> for the events it reaches), \<open>_previousCycle\<close> grows by what it
  returns, then the channels run to \<open>_previousCycle\<close>.
\<close>

definition Run_body :: "'h collaborators \<Rightarrow> 32 word \<Rightarrow> 'h apu \<Rightarrow> 32 word \<times> 'h apu" where
  "Run_body env ctr s =
     (let r = frameCounter_Run_result env ctr (world s);
          s1 = invoke env (FrameCounter_Run ctr) s;
          s2 = fold (FrameCounterTick env) (snd (snd r)) s1;
          s3 = s2\<lparr>previousCycle := previousCycle s2 + fst r\<rparr>;
          s4 = invoke env (Channel_Run squareChannel0 (previousCycle s3)) s3;
          s5 = invoke env (Channel_Run squareChannel1 (previousCycle s4)) s4;
          s6 = invoke env (Channel_Run noiseChannel (previousCycle s5)) s5;
          s7 = invoke env (Channel_Run triangleChannel (previousCycle s6)) s6;
          s8 = invoke env (Channel_Run deltaModulationChannel (previousCycle s7)) s7
      in (fst (snd r), s8))"

text \<open>
  The loop \<open>while(_previousCycle < _currentCycle)\<close>, an unsigned comparison. Nothing in
  the controller bounds the number of passes, so the loop is a partial function:
  \<open>None\<close> is a loop that never exits.
\<close>

partial_function (option) Run_loop ::
  "'h collaborators \<Rightarrow> 32 word \<Rightarrow> 'h apu \<Rightarrow> 'h apu option" where
  "Run_loop env ctr s =
     (if previousCycle s < currentCycle s
      then Run_loop env (fst (Run_body env ctr s)) (snd (Run_body env ctr s))
      else Some s)"

declare Run_loop.simps [code]

text \<open>
  \<open>int32_t cyclesToRun = _currentCycle - _previousCycle\<close>: the unsigned difference,
  wrapping, read as a signed value.
\<close>

definition Run :: "'h collaborators \<Rightarrow> 'h apu \<Rightarrow> 'h apu option" where
  "Run env s = Run_loop env (currentCycle s - previousCycle s) s"

text \<open>
  The state at the head of the loop after \<open>n\<close> passes (or at the exit, if the loop
  exits earlier), with the value of \<open>cyclesToRun\<close> there.
\<close>

fun Run_pass :: "'h collaborators \<Rightarrow> nat \<Rightarrow> 32 word \<times> 'h apu \<Rightarrow> 32 word \<times> 'h apu" where
  "Run_pass env 0 c = c"
| "Run_pass env (Suc n) c =
     (let c' = Run_pass env n c
      in if previousCycle (snd c') < currentCycle (snd c')
         then Run_body env (fst c') (snd c')
         else c')"

subsection \<open>APU::NeedToRun\<close>

text \<open>\<open>uint32_t cyclesToRun = currentCycle - _previousCycle\<close> wraps around.\<close>

definition NeedToRun :: "'h collaborators \<Rightarrow> 32 word \<Rightarrow> 'h apu \<Rightarrow> bool" where
  "NeedToRun env cycle s =
     (if lengthCounter_NeedToRun env (world s) then True
      else
        (let cyclesToRun = cycle - previousCycle s
         in if frameCounter_IrqPending env cyclesToRun (world s) then True
            else if dmc_IrqPending env cyclesToRun (world s) then True
            else False))"

subsection \<open>APU::ReadRAM and APU::WriteRAM\<close>

text \<open>
  Both handlers ignore the address: \<open>GetMemoryRanges\<close> registers them for 0x4015 only.
\<close>

definition ReadRAM :: "'h collaborators \<Rightarrow> 16 word \<Rightarrow> 'h apu \<Rightarrow> (8 word \<times> 'h apu) option" where
  "ReadRAM env addr s =
     (case Run env s of
        None \<Rightarrow> None
      | Some s1 \<Rightarrow>
          (let status0 = (0 :: 8 word);
               status1 = status0 OR (if channel_GetStatus env squareChannel0 (world s1) then 0x01 else 0x00);
               status2 = status1 OR (if channel_GetStatus env squareChannel1 (world s1) then 0x02 else 0x00);
               status3 = status2 OR (if channel_GetStatus env triangleChannel (world s1) then 0x04 else 0x00);
               status4 = status3 OR (if channel_GetStatus env noiseChannel (world s1) then 0x08 else 0x00);
               status5 = status4 OR (if channel_GetStatus env deltaModulationChannel (world s1) then 0x10 else 0x00);
               status6 = status5 OR (if HasIRQSource IRQ_FrameCounter s1 then 0x40 else 0x00);
               status7 = status6 OR (if HasIRQSource IRQ_DMC s1 then 0x80 else 0x00)
           in Some (status7, ClearIRQSource IRQ_FrameCounter s1)))"

definition WriteRAM :: "'h collaborators \<Rightarrow> 16 word \<Rightarrow> 8 word \<Rightarrow> 'h apu \<Rightarrow> 'h apu option" where
  "WriteRAM env addr val s =
     (case Run env s of
        None \<Rightarrow> None
      | Some s1 \<Rightarrow>
          (let s2 = ClearIRQSource IRQ_DMC s1;
               s3 = invoke env (Channel_SetEnabled squareChannel0 (val AND 0x01 = 0x01)) s2;
               s4 = invoke env (Channel_SetEnabled squareChannel1 (val AND 0x02 = 0x02)) s3;
               s5 = invoke env (Channel_SetEnabled triangleChannel (val AND 0x04 = 0x04)) s4;
               s6 = invoke env (Channel_SetEnabled noiseChannel (val AND 0x08 = 0x08)) s5
           in Some (invoke env (Channel_SetEnabled deltaModulationChannel (val AND 0x10 = 0x10)) s6)))"

subsection \<open>APU::SetNesModel\<close>

definition SetNesModel :: "'h collaborators \<Rightarrow> NesModel \<Rightarrow> bool \<Rightarrow> 'h apu \<Rightarrow> 'h apu option" where
  "SetNesModel env model forceInit s =
     (if nesModel s \<noteq> model \<or> forceInit then
        (case Run env s of
           None \<Rightarrow> None
         | Some s1 \<Rightarrow>
             (let s2 = s1\<lparr>nesModel := model\<rparr>;
                  s3 = invoke env (Blip_clock_rate
                         (if model = NTSC then ClockRateNtsc env else ClockRatePal env)) s2;
                  s4 = invoke env (Channel_SetNesModel squareChannel0 model) s3;
                  s5 = invoke env (Channel_SetNesModel squareChannel1 model) s4;
                  s6 = invoke env (Channel_SetNesModel triangleChannel model) s5;
                  s7 = invoke env (Channel_SetNesModel noiseChannel model) s6;
                  s8 = invoke env (Channel_SetNesModel deltaModulationChannel model) s7
              in Some (invoke env (FrameCounter_SetNesModel model) s8)))
      else Some s)"

subsection \<open>APU::Exec\<close>

text \<open>
  \<open>_currentCycle++\<close> wraps at 32 bits. The byte count given to \<open>PlayBuffer\<close> is
  \<open>(uint32_t)(sampleCount * BitsPerSample / 8)\<close>.
\<close>

definition Exec :: "'h collaborators \<Rightarrow> 'h apu \<Rightarrow> 'h apu option" where
  "Exec env s =
     (let s1 = s\<lparr>currentCycle := currentCycle s + 1\<rparr>
      in if currentCycle s1 = 10000 then
           (case Run env s1 of
              None \<Rightarrow> None
            | Some s2 \<Rightarrow>
                (let s3 = invoke env (Channel_EndFrame squareChannel0) s2;
                     s4 = invoke env (Channel_EndFrame squareChannel1) s3;
                     s5 = invoke env (Channel_EndFrame triangleChannel) s4;
                     s6 = invoke env (Channel_EndFrame noiseChannel) s5;
                     s7 = invoke env (Channel_EndFrame deltaModulationChannel) s6;
                     s8 = invoke env (Blip_end_frame (currentCycle s7)) s7;
                     sampleCount = blip_read_samples_result env (SamplesPerFrame env) (world s8);
                     s9 = invoke env (Blip_read_samples (SamplesPerFrame env)) s8;
                     s10 = (if audioDevice s9
                            then invoke env (Audio_PlayBuffer
                                   (of_nat (sampleCount * BitsPerSample env div 8))) s9
                            else s9)
                 in Some (s10\<lparr>currentCycle := 0, previousCycle := 0\<rparr>)))
         else if NeedToRun env (currentCycle s1) s1 then Run env s1
         else Some s1)"

subsection \<open>APU::StopAudio\<close>

definition StopAudio :: "'h collaborators \<Rightarrow> 'h apu \<Rightarrow> 'h apu" where
  "StopAudio env s = (if audioDevice s then invoke env Audio_Pause s else s)"

subsection \<open>APU::Reset\<close>

definition Reset :: "'h collaborators \<Rightarrow> bool \<Rightarrow> 'h apu \<Rightarrow> 'h apu" where
  "Reset env softReset s =
     (let s1 = s\<lparr>currentCycle := 0, previousCycle := 0\<rparr>;
          s2 = invoke env (Channel_Reset squareChannel0 softReset) s1;
          s3 = invoke env (Channel_Reset squareChannel1 softReset) s2;
          s4 = invoke env (Channel_Reset triangleChannel softReset) s3;
          s5 = invoke env (Channel_Reset noiseChannel softReset) s4;
          s6 = invoke env (Channel_Reset deltaModulationChannel softReset) s5
      in invoke env (FrameCounter_Reset softReset) s6)"

subsection \<open>Sequences of operations\<close>

text \<open>
  The operations of the controller, as the CPU, the memory manager and the console call
  them (\<open>StaticRun\<close> and \<open>ExecStatic\<close> are \<open>Run\<close> and \<open>Exec\<close> on the one instance; the
  constructor ends with \<open>Reset(false)\<close>). \<open>Op_Other f\<close> stands for whatever else runs between two of them and changes the
  world but not the controller's own members: the CPU raising or acknowledging
  interrupts, register writes that the memory manager sends to a channel or to the
  frame counter directly. \<open>StreamState\<close>, which overwrites the members from a saved
  file, is not among them.
\<close>

datatype 'h operation =
    Op_Exec
  | Op_ReadRAM "16 word"
  | Op_WriteRAM "16 word" "8 word"
  | Op_SetNesModel NesModel bool
  | Op_Run
  | Op_Reset bool
  | Op_StopAudio
  | Op_Other "'h world \<Rightarrow> 'h world"

fun operate :: "'h collaborators \<Rightarrow> 'h operation \<Rightarrow> 'h apu \<Rightarrow> 'h apu option" where
  "operate env Op_Exec s = Exec env s"
| "operate env (Op_ReadRAM addr) s = map_option snd (ReadRAM env addr s)"
| "operate env (Op_WriteRAM addr val) s = WriteRAM env addr val s"
| "operate env (Op_SetNesModel model forceInit) s = SetNesModel env model forceInit s"
| "operate env Op_Run s = Run env s"
| "operate env (Op_Reset softReset) s = Some (Reset env softReset s)"
| "operate env Op_StopAudio s = Some (StopAudio env s)"
| "operate env (Op_Other f) s = Some (s\<lparr>world := f (world s)\<rparr>)"

fun operate_all :: "'h collaborators \<Rightarrow> 'h operation list \<Rightarrow> 'h apu \<Rightarrow> 'h apu option" where
  "operate_all env [] s = Some s"
| "operate_all env (op # ops) s =
     (case operate env op s of None \<Rightarrow> None | Some s' \<Rightarrow> operate_all env ops s')"

subsection \<open>What the controller needs of the frame counter\<close>

text \<open>
  \<open>APU::Run\<close> computes \<open>cyclesToRun\<close> once, before the loop, and hands the same variable
  to the frame counter in every pass. The loop reaches \<open>_previousCycle = _currentCycle\<close>
  when the frame counter, asked for a positive number \<open>n\<close> of cycles, advances by at
  least one and at most \<open>n\<close> cycles and leaves in \<open>cyclesToRun\<close> what it did not
  consume. A 32-bit pattern is a positive \<open>int32_t\<close> when it is not zero and its sign
  bit is clear.
\<close>

definition positive_int32 :: "32 word \<Rightarrow> bool" where
  "positive_int32 n = (n \<noteq> 0 \<and> n < 0x80000000)"

definition frameCounter_contract :: "'h collaborators \<Rightarrow> bool" where
  "frameCounter_contract env =
     (\<forall>n w. positive_int32 n \<longrightarrow>
        (let r = frameCounter_Run_result env n w
         in fst r \<noteq> 0 \<and> fst r \<le> n \<and> fst (snd r) = n - fst r))"

subsection \<open>A small frame counter and world, for running the controller\<close>

text \<open>
  Modelled from the spec: the frame counter and the channels are not among the sources.
  Of the frame counter the spec says that its run advances time up to the next event
  boundary or the cycles asked for, whichever comes first, and on reaching an event
  invokes the registered callback. The world below keeps the cycles left until the
  frame counter's next event (0: none scheduled) and the channels that are enabled; an
  event is a half frame and raises the frame counter's IRQ, the next one comes 7457
  cycles later. A channel's status is whether it is enabled.
\<close>

record sample_hw =
  countdown :: "32 word"
  enabled :: "channel list"

definition sample_event :: "32 word \<Rightarrow> sample_hw world \<Rightarrow> bool" where
  "sample_event n w = (countdown (hw w) \<noteq> 0 \<and> countdown (hw w) \<le> n)"

definition sample_Run_result ::
  "32 word \<Rightarrow> sample_hw world \<Rightarrow> 32 word \<times> 32 word \<times> FrameType list" where
  "sample_Run_result n w =
     (if sample_event n w
      then (countdown (hw w), n - countdown (hw w), [HalfFrame])
      else (n, 0, []))"

fun sample_perform :: "call \<Rightarrow> sample_hw world \<Rightarrow> sample_hw world" where
  "sample_perform (FrameCounter_Run n) w =
     (if sample_event n w
      then w\<lparr>irqFlag := (irqFlag w)(IRQ_FrameCounter := True),
             hw := (hw w)\<lparr>countdown := 7457\<rparr>\<rparr>
      else if countdown (hw w) = 0 then w
      else w\<lparr>hw := (hw w)\<lparr>countdown := countdown (hw w) - n\<rparr>\<rparr>)"
| "sample_perform (Channel_SetEnabled c b) w =
     w\<lparr>hw := (hw w)\<lparr>enabled := (if b then c # removeAll c (enabled (hw w))
                                  else removeAll c (enabled (hw w)))\<rparr>\<rparr>"
| "sample_perform _ w = w"

definition sample_env :: "sample_hw collaborators" where
  "sample_env =
     \<lparr>perform = sample_perform,
      frameCounter_Run_result = sample_Run_result,
      frameCounter_IrqPending = sample_event,
      dmc_IrqPending = (\<lambda>n w. False),
      lengthCounter_NeedToRun = (\<lambda>w. False),
      channel_GetStatus = (\<lambda>c w. c \<in> set (enabled (hw w))),
      blip_read_samples_result = (\<lambda>n w. n),
      ClockRateNtsc = 1789773,
      ClockRatePal = 1662607,
      SamplesPerFrame = 800,
      BitsPerSample = 16\<rparr>"

text \<open>
  A controller at cycle \<open>cur\<close> that has run up to cycle \<open>prev\<close>, no IRQ latched, the next
  frame event \<open>cd\<close> cycles ahead, triangle enabled, an empty log.
\<close>

definition sample_apu :: "32 word \<Rightarrow> 32 word \<Rightarrow> 32 word \<Rightarrow> bool \<Rightarrow> sample_hw apu" where
  "sample_apu prev cur cd dev =
     \<lparr>nesModel = NTSC, currentCycle = cur, previousCycle = prev, audioDevice = dev,
      world = \<lparr>irqFlag = (\<lambda>src. False), hw = \<lparr>countdown = cd, enabled = [triangleChannel]\<rparr>\<rparr>,
      calls = []\<rparr>"

subsection \<open>Reading the log\<close>

text \<open>The channel a call is made on, if it is made on a channel.\<close>

fun callee :: "call \<Rightarrow> channel option" where
  "callee (Channel_Run c n) = Some c"
| "callee (Channel_SetNesModel c m) = Some c"
| "callee (Channel_Reset c b) = Some c"
| "callee (Channel_SetEnabled c b) = Some c"
| "callee (Channel_EndFrame c) = Some c"
| "callee (Channel_TickEnvelope c) = Some c"
| "callee (Channel_TickLinearCounter c) = Some c"
| "callee (Channel_TickLengthCounter c) = Some c"
| "callee (Channel_TickSweep c) = Some c"
| "callee _ = None"

text \<open>The buffers handed to the audio device, by their byte counts.\<close>

fun is_PlayBuffer :: "call \<Rightarrow> bool" where
  "is_PlayBuffer (Audio_PlayBuffer n) = True"
| "is_PlayBuffer _ = False"

definition played :: "'h apu \<Rightarrow> call list" where
  "played s = filter is_PlayBuffer (calls s)"

text \<open>The calls by which the collaborators are moved forward in time: the frame counter's
  and the channels' \<open>Run\<close>, and the clocks of \<open>FrameCounterTick\<close>.\<close>

fun advances :: "call \<Rightarrow> bool" where
  "advances (FrameCounter_Run n) = True"
| "advances (Channel_Run c n) = True"
| "advances (Channel_TickEnvelope c) = True"
| "advances (Channel_TickLinearCounter c) = True"
| "advances (Channel_TickLengthCounter c) = True"
| "advances (Channel_TickSweep c) = True"
| "advances _ = False"

text \<open>What holds at the head of the loop of \<open>Run\<close>, for the value \<open>fst c\<close> of
  \<open>cyclesToRun\<close> and the state \<open>snd c\<close>: the channels are at most as far as the clock, and
  \<open>cyclesToRun\<close> is the distance left, a non-negative \<open>int32_t\<close>.\<close>

definition loop_head :: "32 word \<times> 'h apu \<Rightarrow> bool" where
  "loop_head c =
     (previousCycle (snd c) \<le> currentCycle (snd c) \<and>
      fst c = currentCycle (snd c) - previousCycle (snd c) \<and>
      fst c < 0x80000000)"

text \<open>What holds between two operations: the channels are at most as far as the clock,
  and the clock is short of the frame limit.\<close>

definition between_operations :: "'h apu \<Rightarrow> bool" where
  "between_operations s = (previousCycle s \<le> currentCycle s \<and> currentCycle s < 10000)"

section \<open>Properties\<close>

subsection \<open>What a call leaves alone\<close>

lemma invoke_fields [simp]:
  "nesModel (invoke env c s) = nesModel s"
  "currentCycle (invoke env c s) = currentCycle s"
  "previousCycle (invoke env c s) = previousCycle s"
  "audioDevice (invoke env c s) = audioDevice s"
  "calls (invoke env c s) = calls s @ [c]"
  "world (invoke env c s) = perform env c (world s)"
  by (simp_all add: invoke_def)

lemma ClearIRQSource_fields [simp]:
  "nesModel (ClearIRQSource src s) = nesModel s"
  "currentCycle (ClearIRQSource src s) = currentCycle s"
  "previousCycle (ClearIRQSource src s) = previousCycle s"
  "audioDevice (ClearIRQSource src s) = audioDevice s"
  "calls (ClearIRQSource src s) = calls s @ [CPU_ClearIRQSource src]"
  "hw (world (ClearIRQSource src s)) = hw (world s)"
  "irqFlag (world (ClearIRQSource src s)) = (irqFlag (world s))(src := False)"
  by (simp_all add: ClearIRQSource_def)

lemma FrameCounterTick_fields [simp]:
  "nesModel (FrameCounterTick env t s) = nesModel s"
  "currentCycle (FrameCounterTick env t s) = currentCycle s"
  "previousCycle (FrameCounterTick env t s) = previousCycle s"
  "audioDevice (FrameCounterTick env t s) = audioDevice s"
  by (simp_all add: FrameCounterTick_def Let_def)

lemma fold_FrameCounterTick_fields [simp]:
  "nesModel (fold (FrameCounterTick env) ts s) = nesModel s"
  "currentCycle (fold (FrameCounterTick env) ts s) = currentCycle s"
  "previousCycle (fold (FrameCounterTick env) ts s) = previousCycle s"
  "audioDevice (fold (FrameCounterTick env) ts s) = audioDevice s"
  by (induction ts arbitrary: s) simp_all

lemma Run_body_fields [simp]:
  "nesModel (snd (Run_body env ctr s)) = nesModel s"
  "currentCycle (snd (Run_body env ctr s)) = currentCycle s"
  "audioDevice (snd (Run_body env ctr s)) = audioDevice s"
  "previousCycle (snd (Run_body env ctr s)) =
     previousCycle s + fst (frameCounter_Run_result env ctr (world s))"
  "fst (Run_body env ctr s) = fst (snd (frameCounter_Run_result env ctr (world s)))"
  by (simp_all add: Run_body_def Let_def)

text \<open>The log only grows.\<close>

lemma FrameCounterTick_extends:
  "\<exists>l. calls (FrameCounterTick env t s) = calls s @ l \<and> list_all advances l"
  by (simp add: FrameCounterTick_def Let_def)

lemma fold_FrameCounterTick_extends:
  "\<exists>l. calls (fold (FrameCounterTick env) ts s) = calls s @ l \<and> list_all advances l"
proof (induction ts arbitrary: s)
  case Nil
  show ?case by simp
next
  case (Cons t ts)
  obtain l1 where "calls (FrameCounterTick env t s) = calls s @ l1" "list_all advances l1"
    using FrameCounterTick_extends by blast
  moreover obtain l2 where
    "calls (fold (FrameCounterTick env) ts (FrameCounterTick env t s)) =
       calls (FrameCounterTick env t s) @ l2" "list_all advances l2"
    using Cons.IH by blast
  ultimately have "calls (fold (FrameCounterTick env) (t # ts) s) = calls s @ (l1 @ l2)"
    "list_all advances (l1 @ l2)" by simp_all
  then show ?case by blast
qed

lemma Run_body_extends:
  "\<exists>l. calls (snd (Run_body env ctr s)) = calls s @ l \<and> list_all advances l"
proof -
  obtain l where
    "calls (fold (FrameCounterTick env) (snd (snd (frameCounter_Run_result env ctr (world s))))
       (invoke env (FrameCounter_Run ctr) s)) = calls (invoke env (FrameCounter_Run ctr) s) @ l"
    "list_all advances l"
    using fold_FrameCounterTick_extends by blast
  then show ?thesis by (simp add: Run_body_def Let_def)
qed

subsection \<open>The loop of Run\<close>

lemma Run_loop_step:
  "previousCycle s < currentCycle s \<Longrightarrow>
   Run_loop env ctr s = Run_loop env (fst (Run_body env ctr s)) (snd (Run_body env ctr s))"
  by (subst Run_loop.simps) simp

lemma Run_loop_exit: "\<not> previousCycle s < currentCycle s \<Longrightarrow> Run_loop env ctr s = Some s"
  by (subst Run_loop.simps) simp

lemmas Run_loop_induct = Run_loop.raw_induct [rotated 1, consumes 1, case_names pass]

text \<open>
  Whatever the collaborators do, a loop that exits has left the model, the clock and
  the audio device alone, has stopped because \<open>_previousCycle < _currentCycle\<close> is
  false, and has only added advancing calls to the log.
\<close>

lemma Run_loop_frame:
  assumes "Run_loop env ctr s = Some s'"
  shows "nesModel s' = nesModel s \<and> currentCycle s' = currentCycle s \<and>
    audioDevice s' = audioDevice s \<and> \<not> previousCycle s' < currentCycle s' \<and>
    (\<exists>l. calls s' = calls s @ l \<and> list_all advances l)"
  using assms
proof (induction env ctr s s' rule: Run_loop_induct)
  case (pass loop env ctr s s')
  show ?case
  proof (cases "previousCycle s < currentCycle s")
    case True
    with pass.hyps have "loop env (fst (Run_body env ctr s)) (snd (Run_body env ctr s)) = Some s'"
      by simp
    then have "nesModel s' = nesModel (snd (Run_body env ctr s)) \<and>
      currentCycle s' = currentCycle (snd (Run_body env ctr s)) \<and>
      audioDevice s' = audioDevice (snd (Run_body env ctr s)) \<and>
      \<not> previousCycle s' < currentCycle s' \<and>
      (\<exists>l. calls s' = calls (snd (Run_body env ctr s)) @ l \<and> list_all advances l)"
      by (rule pass.IH)
    then obtain l2 where l2: "calls s' = calls (snd (Run_body env ctr s)) @ l2"
      "list_all advances l2" and rest: "nesModel s' = nesModel s"
      "currentCycle s' = currentCycle s" "audioDevice s' = audioDevice s"
      "\<not> previousCycle s' < currentCycle s'"
      by auto
    obtain l1 where l1: "calls (snd (Run_body env ctr s)) = calls s @ l1" "list_all advances l1"
      using Run_body_extends by blast
    from l1 l2 have "calls s' = calls s @ (l1 @ l2)" "list_all advances (l1 @ l2)"
      by simp_all
    then have "\<exists>l. calls s' = calls s @ l \<and> list_all advances l" by blast
    with rest show ?thesis by simp
  next
    case False
    with pass.hyps show ?thesis by simp
  qed
qed

lemma Run_frame:
  assumes "Run env s = Some s'"
  shows "nesModel s' = nesModel s" and "currentCycle s' = currentCycle s"
    and "audioDevice s' = audioDevice s" and "\<not> previousCycle s' < currentCycle s'"
    and "\<exists>l. calls s' = calls s @ l \<and> list_all advances l"
  using Run_loop_frame [OF assms [unfolded Run_def]] by blast+

lemma contractD:
  assumes "frameCounter_contract env" "positive_int32 n"
  shows "fst (frameCounter_Run_result env n w) \<noteq> 0"
    and "fst (frameCounter_Run_result env n w) \<le> n"
    and "fst (snd (frameCounter_Run_result env n w)) = n - fst (frameCounter_Run_result env n w)"
  using assms by (simp_all add: frameCounter_contract_def Let_def)

lemma pass_arith:
  fixes p c r :: "32 word"
  assumes "p < c" "r \<noteq> 0" "r \<le> c - p" "c - p < 0x80000000"
  shows "p + r \<le> c" and "unat (c - (p + r)) < unat (c - p)"
    and "c - p - r = c - (p + r)" and "c - (p + r) < 0x80000000"
proof -
  have pc: "unat p < unat c" using assms(1) by (simp add: word_less_nat_alt)
  then have "p \<le> c" by (simp add: word_le_nat_alt)
  then have sub: "unat (c - p) = unat c - unat p" by (rule unat_sub)
  have r0: "0 < unat r" using assms(2) by (simp add: unat_gt_0)
  have rle: "unat r \<le> unat c - unat p" using assms(3) sub by (simp add: word_le_nat_alt)
  have "unat c < 2 ^ LENGTH(32)" by (rule unsigned_less)
  with rle pc have "unat p + unat r < 2 ^ LENGTH(32)" by linarith
  then have add: "unat (p + r) = unat p + unat r" by (simp only: unat_add_lem)
  with rle pc show le: "p + r \<le> c" by (simp add: word_le_nat_alt)
  then have sub2: "unat (c - (p + r)) = unat c - (unat p + unat r)" by (simp add: unat_sub add)
  with sub r0 pc rle show lt: "unat (c - (p + r)) < unat (c - p)" by linarith
  show "c - p - r = c - (p + r)" by simp
  from lt have "c - (p + r) < c - p" by (simp add: word_less_nat_alt)
  then show "c - (p + r) < 0x80000000" using assms(4) by (rule less_trans)
qed

lemma inc_arith:
  fixes p c :: "32 word"
  assumes "p \<le> c" "c < 10000"
  shows "p \<le> c + 1" and "c + 1 - p < 0x80000000" and "c + 1 \<noteq> 10000 \<Longrightarrow> c + 1 < 10000"
    and "c + 1 \<le> 10000"
proof -
  have c: "unat c < 10000" using assms(2) by (simp add: word_less_nat_alt)
  have pc: "unat p \<le> unat c" using assms(1) by (simp add: word_le_nat_alt)
  have "unat c + unat (1 :: 32 word) < 2 ^ LENGTH(32)" using c by simp
  then have "unat (c + 1) = unat c + unat (1 :: 32 word)" by (simp only: unat_add_lem)
  then have add: "unat (c + 1) = unat c + 1" by simp
  with pc show le: "p \<le> c + 1" by (simp add: word_le_nat_alt)
  then have "unat (c + 1 - p) = unat (c + 1) - unat p" by (rule unat_sub)
  with add c pc show "c + 1 - p < 0x80000000" by (simp add: word_less_nat_alt)
  from add c show le2: "c + 1 \<le> 10000" by (simp add: word_le_nat_alt)
  show "c + 1 < 10000" if "c + 1 \<noteq> 10000" using le2 that by (rule le_neq_trans)
qed

lemma gap_arith:
  fixes p c :: "32 word"
  assumes "p \<le> c" "c < 10000"
  shows "c - p < 0x80000000"
proof -
  have "unat (c - p) = unat c - unat p" using assms(1) by (rule unat_sub)
  moreover have "unat c < 10000" using assms(2) by (simp add: word_less_nat_alt)
  ultimately show ?thesis by (simp add: word_less_nat_alt)
qed

text \<open>
  With a frame counter that keeps the contract, the loop exits, and it exits with
  \<open>_previousCycle = _currentCycle\<close>.
\<close>

lemma Run_loop_catches_up:
  assumes con: "frameCounter_contract env"
  shows "previousCycle s \<le> currentCycle s \<Longrightarrow> ctr = currentCycle s - previousCycle s \<Longrightarrow>
         ctr < 0x80000000 \<Longrightarrow>
         \<exists>s'. Run_loop env ctr s = Some s' \<and> previousCycle s' = currentCycle s'"
proof (induction "unat (currentCycle s - previousCycle s)" arbitrary: s ctr rule: less_induct)
  case less
  show ?case
  proof (cases "previousCycle s < currentCycle s")
    case False
    with less.prems have "previousCycle s = currentCycle s" by simp
    with False show ?thesis by (simp add: Run_loop_exit)
  next
    case True
    define ran where "ran = fst (frameCounter_Run_result env ctr (world s))"
    define s1 where "s1 = snd (Run_body env ctr s)"
    define ctr1 where "ctr1 = fst (Run_body env ctr s)"
    from True less.prems have pos: "positive_int32 ctr"
      by (simp add: positive_int32_def)
    have ran: "ran \<noteq> 0" "ran \<le> currentCycle s - previousCycle s"
      using contractD(1,2) [OF con pos, of "world s"] less.prems(2) by (simp_all add: ran_def)
    have ctr1: "ctr1 = currentCycle s - previousCycle s - ran"
      using contractD(3) [OF con pos, of "world s"] less.prems(2) by (simp add: ctr1_def ran_def)
    have gap: "currentCycle s - previousCycle s < 0x80000000"
      using less.prems by simp
    note ar = pass_arith [OF True ran gap]
    have f: "currentCycle s1 = currentCycle s" "previousCycle s1 = previousCycle s + ran"
      by (simp_all add: s1_def ran_def)
    have "\<exists>s'. Run_loop env ctr1 s1 = Some s' \<and> previousCycle s' = currentCycle s'"
      by (rule less.hyps) (simp_all add: f ar ctr1)
    moreover have "Run_loop env ctr s = Run_loop env ctr1 s1"
      using True by (simp add: Run_loop_step ctr1_def s1_def)
    ultimately show ?thesis by simp
  qed
qed

lemma Run_catches_up:
  assumes "frameCounter_contract env" "previousCycle s \<le> currentCycle s"
    "currentCycle s - previousCycle s < 0x80000000"
  shows "\<exists>s'. Run env s = Some s' \<and> previousCycle s' = currentCycle s' \<and>
           currentCycle s' = currentCycle s \<and> nesModel s' = nesModel s \<and>
           audioDevice s' = audioDevice s"
proof -
  obtain s' where s': "Run env s = Some s'" "previousCycle s' = currentCycle s'"
    using Run_loop_catches_up [OF assms(1,2) refl] assms(3) by (auto simp: Run_def)
  with Run_frame(1-3) [OF s'(1)] show ?thesis by simp
qed

subsection \<open>The sample frame counter\<close>

lemma sample_contract: "frameCounter_contract sample_env"
  by (auto simp: frameCounter_contract_def sample_env_def sample_Run_result_def sample_event_def
      positive_int32_def Let_def)

lemmas sample_simps = sample_apu_def sample_env_def sample_Run_result_def sample_event_def
  Run_def Run_loop_step Run_loop_exit Run_body_def invoke_def Let_def FrameCounterTick_def

subsection \<open>Bits of a byte\<close>

lemma bit_if: "bit (if b then x else (0::8 word)) n \<longleftrightarrow> b \<and> bit x n"
  by simp

lemma status_bits:
  fixes v :: "8 word"
  assumes "v = 0 OR (if b0 then 0x01 else 0x00) OR (if b1 then 0x02 else 0x00)
     OR (if b2 then 0x04 else 0x00) OR (if b3 then 0x08 else 0x00) OR (if b4 then 0x10 else 0x00)
     OR (if b6 then 0x40 else 0x00) OR (if b7 then 0x80 else 0x00)"
  shows "bit v 0 = b0" "bit v 1 = b1" "bit v 2 = b2" "bit v 3 = b3" "bit v 4 = b4"
    "\<not> bit v 5" "bit v 6 = b6" "bit v 7 = b7"
  unfolding assms by (simp_all add: bit_or_iff bit_if del: if_split cong: if_cong)

lemma and_exp: "(v::8 word) AND 2 ^ n = (if bit v n then 2 ^ n else 0)"
  by (rule bit_eqI) (auto simp: bit_and_iff bit_exp_iff)

lemma and_single_bit:
  fixes v :: "8 word"
  shows "(v AND 0x01 = 0x01) = (v AND 0x01 \<noteq> 0)"
    "(v AND 0x02 = 0x02) = (v AND 0x02 \<noteq> 0)"
    "(v AND 0x04 = 0x04) = (v AND 0x04 \<noteq> 0)"
    "(v AND 0x08 = 0x08) = (v AND 0x08 \<noteq> 0)"
    "(v AND 0x10 = 0x10) = (v AND 0x10 \<noteq> 0)"
  using and_exp [of v 0] and_exp [of v 1] and_exp [of v 2] and_exp [of v 3] and_exp [of v 4]
  by (simp_all split: if_splits)

subsection \<open>Between operations\<close>

lemma Reset_fields [simp]:
  "currentCycle (Reset env softReset s) = 0" "previousCycle (Reset env softReset s) = 0"
  by (simp_all add: Reset_def Let_def)

lemma Reset_between: "between_operations (Reset env softReset s)"
  by (simp add: between_operations_def)

lemma Exec_between:
  assumes con: "frameCounter_contract env" and b: "between_operations s"
  shows "\<exists>s'. Exec env s = Some s' \<and> between_operations s'"
proof -
  define s1 where "s1 = s\<lparr>currentCycle := currentCycle s + 1\<rparr>"
  from b have pc: "previousCycle s \<le> currentCycle s" "currentCycle s < 10000"
    by (simp_all add: between_operations_def)
  note ar = inc_arith [OF pc]
  have "previousCycle s1 \<le> currentCycle s1" "currentCycle s1 - previousCycle s1 < 0x80000000"
    using ar(1,2) by (simp_all add: s1_def)
  from Run_catches_up [OF con this] obtain s2 where s2: "Run env s1 = Some s2"
    "previousCycle s2 = currentCycle s2" "currentCycle s2 = currentCycle s1" by blast
  have ex: "Exec env s =
     (if currentCycle s1 = 10000 then
        (case Run env s1 of
           None \<Rightarrow> None
         | Some s2 \<Rightarrow>
             (let s3 = invoke env (Channel_EndFrame squareChannel0) s2;
                  s4 = invoke env (Channel_EndFrame squareChannel1) s3;
                  s5 = invoke env (Channel_EndFrame triangleChannel) s4;
                  s6 = invoke env (Channel_EndFrame noiseChannel) s5;
                  s7 = invoke env (Channel_EndFrame deltaModulationChannel) s6;
                  s8 = invoke env (Blip_end_frame (currentCycle s7)) s7;
                  sampleCount = blip_read_samples_result env (SamplesPerFrame env) (world s8);
                  s9 = invoke env (Blip_read_samples (SamplesPerFrame env)) s8;
                  s10 = (if audioDevice s9
                         then invoke env (Audio_PlayBuffer
                                (of_nat (sampleCount * BitsPerSample env div 8))) s9
                         else s9)
              in Some (s10\<lparr>currentCycle := 0, previousCycle := 0\<rparr>)))
      else if NeedToRun env (currentCycle s1) s1 then Run env s1
      else Some s1)"
    unfolding Exec_def s1_def Let_def ..
  have c1: "currentCycle s1 = currentCycle s + 1" "previousCycle s1 = previousCycle s"
    by (simp_all add: s1_def)
  show ?thesis
  proof (cases "currentCycle s1 = 10000")
    case True
    with s2 show ?thesis
      unfolding ex by (simp add: Let_def between_operations_def)
  next
    case False
    with ar(3) c1 have lt: "currentCycle s1 < 10000" by simp
    show ?thesis
    proof (cases "NeedToRun env (currentCycle s1) s1")
      case True
      with False s2 lt show ?thesis
        unfolding ex by (simp add: between_operations_def)
    next
      case nr: False
      with False lt ar(1) c1 show ?thesis
        unfolding ex by (simp add: between_operations_def)
    qed
  qed
qed

lemma Run_between:
  assumes con: "frameCounter_contract env" and b: "between_operations s"
  shows "\<exists>s'. Run env s = Some s' \<and> previousCycle s' = currentCycle s' \<and>
           currentCycle s' = currentCycle s \<and> nesModel s' = nesModel s \<and>
           audioDevice s' = audioDevice s"
proof -
  from b have pc: "previousCycle s \<le> currentCycle s" "currentCycle s < 10000"
    by (simp_all add: between_operations_def)
  show ?thesis by (rule Run_catches_up [OF con pc(1) gap_arith [OF pc]])
qed

lemma ReadRAM_between:
  assumes con: "frameCounter_contract env" and b: "between_operations s"
  shows "\<exists>v s'. ReadRAM env addr s = Some (v, s') \<and> previousCycle s' = currentCycle s' \<and>
           currentCycle s' = currentCycle s"
proof -
  from Run_between [OF con b] obtain s1 where "Run env s = Some s1"
    "previousCycle s1 = currentCycle s1" "currentCycle s1 = currentCycle s" by blast
  then show ?thesis by (simp add: ReadRAM_def Let_def)
qed

lemma WriteRAM_between:
  assumes con: "frameCounter_contract env" and b: "between_operations s"
  shows "\<exists>s'. WriteRAM env addr val s = Some s' \<and> previousCycle s' = currentCycle s' \<and>
           currentCycle s' = currentCycle s"
proof -
  from Run_between [OF con b] obtain s1 where "Run env s = Some s1"
    "previousCycle s1 = currentCycle s1" "currentCycle s1 = currentCycle s" by blast
  then show ?thesis by (simp add: WriteRAM_def Let_def)
qed

lemma SetNesModel_between:
  assumes con: "frameCounter_contract env" and b: "between_operations s"
  shows "\<exists>s'. SetNesModel env model forceInit s = Some s' \<and> between_operations s'"
proof (cases "nesModel s \<noteq> model \<or> forceInit")
  case True
  from Run_between [OF con b] obtain s1 where "Run env s = Some s1"
    "previousCycle s1 = currentCycle s1" "currentCycle s1 = currentCycle s" by blast
  with True b show ?thesis by (auto simp: SetNesModel_def Let_def between_operations_def)
next
  case False
  with b show ?thesis by (simp add: SetNesModel_def)
qed

lemma operate_between:
  assumes con: "frameCounter_contract env" and b: "between_operations s"
  shows "\<exists>s'. operate env op s = Some s' \<and> between_operations s'"
proof (cases op)
  case Op_Exec
  with Exec_between [OF con b] show ?thesis by simp
next
  case (Op_ReadRAM addr)
  from ReadRAM_between [OF con b, of addr] b show ?thesis
    by (auto simp: Op_ReadRAM between_operations_def)
next
  case (Op_WriteRAM addr val)
  from WriteRAM_between [OF con b, of addr val] b show ?thesis
    by (auto simp: Op_WriteRAM between_operations_def)
next
  case (Op_SetNesModel model forceInit)
  with SetNesModel_between [OF con b] show ?thesis by simp
next
  case Op_Run
  from Run_between [OF con b] b show ?thesis
    by (auto simp: Op_Run between_operations_def)
next
  case (Op_Reset softReset)
  then show ?thesis by (simp add: Reset_between)
next
  case Op_StopAudio
  with b show ?thesis by (simp add: between_operations_def StopAudio_def)
next
  case (Op_Other f)
  with b show ?thesis by (simp add: between_operations_def)
qed

lemma operate_all_between:
  assumes con: "frameCounter_contract env"
  shows "between_operations s \<Longrightarrow>
         \<exists>s'. operate_all env ops s = Some s' \<and> between_operations s'"
proof (induction ops arbitrary: s)
  case Nil
  then show ?case by simp
next
  case (Cons op ops)
  from operate_between [OF con Cons.prems] obtain s1 where
    s1: "operate env op s = Some s1" "between_operations s1" by blast
  from Cons.IH [OF s1(2)] s1(1) show ?case by simp
qed

subsection \<open>Heads of the loop\<close>

lemma Run_pass_loop:
  "Run_loop env (fst (Run_pass env n c)) (snd (Run_pass env n c)) = Run_loop env (fst c) (snd c)"
proof (induction n)
  case 0
  show ?case by simp
next
  case (Suc n)
  define c' where "c' = Run_pass env n c"
  have step: "Run_pass env (Suc n) c =
      (if previousCycle (snd c') < currentCycle (snd c') then Run_body env (fst c') (snd c') else c')"
    by (simp add: Let_def c'_def)
  have "Run_loop env (fst (Run_pass env (Suc n) c)) (snd (Run_pass env (Suc n) c)) =
      Run_loop env (fst c') (snd c')"
  proof (cases "previousCycle (snd c') < currentCycle (snd c')")
    case True
    then show ?thesis unfolding step by (simp only: if_True Run_loop_step [symmetric])
  next
    case False
    then show ?thesis unfolding step by (simp only: if_False)
  qed
  with Suc show ?case by (simp only: c'_def)
qed

lemma Run_body_head:
  assumes con: "frameCounter_contract env"
    and le: "previousCycle s \<le> currentCycle s"
    and ctr: "ctr = currentCycle s - previousCycle s" "ctr < 0x80000000"
    and lt: "previousCycle s < currentCycle s"
  shows "fst (frameCounter_Run_result env ctr (world s)) \<noteq> 0"
    and "fst (frameCounter_Run_result env ctr (world s)) \<le> currentCycle s - previousCycle s"
    and "previousCycle (snd (Run_body env ctr s)) \<le> currentCycle (snd (Run_body env ctr s))"
    and "fst (Run_body env ctr s) =
           currentCycle (snd (Run_body env ctr s)) - previousCycle (snd (Run_body env ctr s))"
    and "fst (Run_body env ctr s) < 0x80000000"
proof -
  define ran where "ran = fst (frameCounter_Run_result env ctr (world s))"
  from lt ctr have pos: "positive_int32 ctr" by (simp add: positive_int32_def)
  have ran: "ran \<noteq> 0" "ran \<le> currentCycle s - previousCycle s"
    using contractD(1,2) [OF con pos, of "world s"] ctr(1) by (simp_all add: ran_def)
  have ctr1: "fst (Run_body env ctr s) = currentCycle s - previousCycle s - ran"
    using contractD(3) [OF con pos, of "world s"] ctr(1) by (simp add: ran_def)
  have gap: "currentCycle s - previousCycle s < 0x80000000" using ctr by simp
  note ar = pass_arith [OF lt ran gap]
  from ran show "fst (frameCounter_Run_result env ctr (world s)) \<noteq> 0"
    "fst (frameCounter_Run_result env ctr (world s)) \<le> currentCycle s - previousCycle s"
    by (simp_all add: ran_def)
  from ar(1) show "previousCycle (snd (Run_body env ctr s)) \<le> currentCycle (snd (Run_body env ctr s))"
    by (simp add: ran_def)
  from ctr1 ar(3) show "fst (Run_body env ctr s) =
      currentCycle (snd (Run_body env ctr s)) - previousCycle (snd (Run_body env ctr s))"
    by (simp add: ran_def)
  from ctr1 ar(3,4) show "fst (Run_body env ctr s) < 0x80000000" by simp
qed

lemma Run_body_loop_head:
  assumes con: "frameCounter_contract env" and h: "loop_head (ctr, s)"
    and lt: "previousCycle s < currentCycle s"
  shows "loop_head (Run_body env ctr s)"
proof -
  from h have inv: "previousCycle s \<le> currentCycle s" "ctr = currentCycle s - previousCycle s"
    "ctr < 0x80000000" unfolding loop_head_def fst_conv snd_conv by blast+
  from Run_body_head(3-5) [OF con inv lt] show ?thesis
    unfolding loop_head_def by blast
qed

lemma Run_pass_head:
  assumes con: "frameCounter_contract env" and h: "loop_head c"
  shows "loop_head (Run_pass env n c)"
proof (induction n)
  case 0
  from h show ?case by simp
next
  case (Suc n)
  define c' where "c' = Run_pass env n c"
  have step: "Run_pass env (Suc n) c =
      (if previousCycle (snd c') < currentCycle (snd c') then Run_body env (fst c') (snd c') else c')"
    by (simp add: Let_def c'_def)
  from Suc have h': "loop_head (fst c', snd c')" by (simp add: c'_def)
  show ?case
  proof (cases "previousCycle (snd c') < currentCycle (snd c')")
    case True
    from Run_body_loop_head [OF con h' True] True show ?thesis
      unfolding step by (simp only: if_True)
  next
    case False
    with h' show ?thesis unfolding step by (simp only: if_False prod.collapse)
  qed
qed

section \<open>The claims\<close>

text \<open>
  Claim C1. With a frame counter that keeps the contract, in every state \<open>s\<close> reached
  from a reset by a sequence of operations, \<open>Run\<close> returns with
  \<open>_previousCycle = _currentCycle\<close>, when called in \<open>s\<close> and when called by \<open>Exec\<close> after
  the increment of \<open>_currentCycle\<close>; and so do a read and a write of 0x4015.
\<close>

theorem Run_previous_equals_current:
  assumes con: "frameCounter_contract env"
    and reach: "operate_all env ops (Reset env softReset s0) = Some s"
  shows "(\<exists>s'. Run env s = Some s' \<and> previousCycle s' = currentCycle s') \<and>
         (\<exists>s'. Run env (s\<lparr>currentCycle := currentCycle s + 1\<rparr>) = Some s' \<and>
                previousCycle s' = currentCycle s') \<and>
         (\<exists>v s'. ReadRAM env addr s = Some (v, s') \<and> previousCycle s' = currentCycle s') \<and>
         (\<exists>s'. WriteRAM env addr val s = Some s' \<and> previousCycle s' = currentCycle s')"
proof -
  have "between_operations (Reset env softReset s0)" by (rule Reset_between)
  from operate_all_between [OF con this, of ops] reach
  have b: "between_operations s" by auto
  then have pc: "previousCycle s \<le> currentCycle s" "currentCycle s < 10000"
    by (simp_all add: between_operations_def)
  have "\<exists>s'. Run env (s\<lparr>currentCycle := currentCycle s + 1\<rparr>) = Some s' \<and>
          previousCycle s' = currentCycle s'"
    using Run_catches_up [OF con, of "s\<lparr>currentCycle := currentCycle s + 1\<rparr>"]
      inc_arith(1,2) [OF pc] by auto
  with Run_between [OF con b] ReadRAM_between [OF con b, of addr]
    WriteRAM_between [OF con b, of addr val]
  show ?thesis by blast
qed

theorem Run_previous_equals_current_witness:
  "\<exists>s. operate_all sample_env [Op_Exec, Op_Exec] (Reset sample_env False (sample_apu 5 9 3 True)) = Some s \<and>
        previousCycle s < currentCycle s \<and>
        (\<exists>s'. Run sample_env s = Some s' \<and> previousCycle s' = currentCycle s') \<and>
        (\<exists>v s'. ReadRAM sample_env 0x4015 s = Some (v, s') \<and> previousCycle s' = currentCycle s') \<and>
        (\<exists>s'. WriteRAM sample_env 0x4015 0x1F s = Some s' \<and> previousCycle s' = currentCycle s')"
proof -
  have "\<exists>s. operate_all sample_env [Op_Exec, Op_Exec]
          (Reset sample_env False (sample_apu 5 9 3 True)) = Some s \<and>
          previousCycle s < currentCycle s"
    by (simp add: Exec_def NeedToRun_def Reset_def sample_simps word_le_nat_alt)
  then obtain s where s: "operate_all sample_env [Op_Exec, Op_Exec]
          (Reset sample_env False (sample_apu 5 9 3 True)) = Some s"
    "previousCycle s < currentCycle s" by blast
  from Run_previous_equals_current [OF sample_contract s(1), of "0x4015" "0x1F"] s
  show ?thesis by blast
qed

text \<open>
  Claim C2. With a frame counter that keeps the contract, let \<open>Run\<close> start with the
  channels not ahead of the clock, and let \<open>(ctr, s)\<close> be the head of the loop after
  \<open>n\<close> passes, with \<open>_previousCycle < _currentCycle\<close>, so that another pass is made.
  Then the frame counter is asked for \<open>ctr = _currentCycle - _previousCycle\<close> cycles, the
  cycles still to run; it reports \<open>ran\<close> cycles, at least one and at most \<open>ctr\<close>;
  \<open>_previousCycle\<close> grows by exactly \<open>ran\<close>; and after the frame counter and its
  callbacks (state \<open>s2\<close>) the pass calls \<open>Run(_previousCycle)\<close> on square 0, square 1,
  noise, triangle and delta modulation, in this order, and nothing else.
\<close>

theorem Run_every_pass:
  assumes con: "frameCounter_contract env"
    and le: "previousCycle s0 \<le> currentCycle s0"
    and gap: "currentCycle s0 - previousCycle s0 < 0x80000000"
    and head: "Run_pass env n (currentCycle s0 - previousCycle s0, s0) = (ctr, s)"
    and enter: "previousCycle s < currentCycle s"
  shows "Run env s0 = Run_loop env ctr s \<and>
         ctr = currentCycle s - previousCycle s \<and>
         (\<exists>ran s2 s' l.
            ran = fst (frameCounter_Run_result env ctr (world s)) \<and>
            s2 = fold (FrameCounterTick env) (snd (snd (frameCounter_Run_result env ctr (world s))))
                   (invoke env (FrameCounter_Run ctr) s) \<and>
            Run_pass env (Suc n) (currentCycle s0 - previousCycle s0, s0) =
              (currentCycle s' - previousCycle s', s') \<and>
            ran \<noteq> 0 \<and> ran \<le> currentCycle s - previousCycle s \<and>
            previousCycle s' = previousCycle s + ran \<and>
            previousCycle s' \<le> currentCycle s' \<and> currentCycle s' = currentCycle s \<and>
            (\<exists>l2. calls s2 = calls s @ FrameCounter_Run ctr # l2) \<and>
            l = [Channel_Run squareChannel0 (previousCycle s'),
                 Channel_Run squareChannel1 (previousCycle s'),
                 Channel_Run noiseChannel (previousCycle s'),
                 Channel_Run triangleChannel (previousCycle s'),
                 Channel_Run deltaModulationChannel (previousCycle s')] \<and>
            calls s' = calls s2 @ l \<and>
            world s' = fold (perform env) l (world s2))"
proof -
  define c0 where "c0 = (currentCycle s0 - previousCycle s0, s0)"
  have "Run env s0 = Run_loop env (fst c0) (snd c0)" by (simp add: Run_def c0_def)
  also have "\<dots> = Run_loop env ctr s"
    using Run_pass_loop [of env n c0] head by (simp add: c0_def)
  finally have run: "Run env s0 = Run_loop env ctr s" .
  have "loop_head (currentCycle s0 - previousCycle s0, s0)"
    using le gap by (simp add: loop_head_def)
  from Run_pass_head [OF con this, of n] head have "loop_head (ctr, s)" by simp
  then have inv: "previousCycle s \<le> currentCycle s" "ctr = currentCycle s - previousCycle s"
    "ctr < 0x80000000" unfolding loop_head_def fst_conv snd_conv by blast+
  note bh = Run_body_head [OF con inv enter]
  define s' where "s' = snd (Run_body env ctr s)"
  define s2 where "s2 = fold (FrameCounterTick env)
      (snd (snd (frameCounter_Run_result env ctr (world s)))) (invoke env (FrameCounter_Run ctr) s)"
  have next_head: "Run_pass env (Suc n) (currentCycle s0 - previousCycle s0, s0) =
      (currentCycle s' - previousCycle s', s')"
    using head enter bh(4) by (simp add: s'_def prod_eq_iff)
  obtain l2 where "calls s2 = calls (invoke env (FrameCounter_Run ctr) s) @ l2"
    using fold_FrameCounterTick_extends unfolding s2_def by blast
  then have l2: "\<exists>l2. calls s2 = calls s @ FrameCounter_Run ctr # l2" by simp
  have p': "previousCycle s' =
      previousCycle s + fst (frameCounter_Run_result env ctr (world s))"
    "currentCycle s' = currentCycle s"
    by (simp_all add: s'_def)
  have p2: "previousCycle s2 = previousCycle s" by (simp add: s2_def)
  have cw: "calls s' = calls s2 @
      [Channel_Run squareChannel0 (previousCycle s'),
       Channel_Run squareChannel1 (previousCycle s'),
       Channel_Run noiseChannel (previousCycle s'),
       Channel_Run triangleChannel (previousCycle s'),
       Channel_Run deltaModulationChannel (previousCycle s')]"
    "world s' = fold (perform env)
      [Channel_Run squareChannel0 (previousCycle s'),
       Channel_Run squareChannel1 (previousCycle s'),
       Channel_Run noiseChannel (previousCycle s'),
       Channel_Run triangleChannel (previousCycle s'),
       Channel_Run deltaModulationChannel (previousCycle s')] (world s2)"
    unfolding p' unfolding s'_def Run_body_def Let_def s2_def [symmetric]
    by (simp_all add: p2)
  from run inv(2) next_head bh(1,2) p' bh(3) l2 cw show ?thesis
    unfolding s'_def [symmetric] s2_def [symmetric] by blast
qed

theorem Run_every_pass_witness:
  "\<exists>ctr s s'. Run_pass sample_env 1 (5, sample_apu 2 7 3 True) = (ctr, s) \<and>
      previousCycle s < currentCycle s \<and>
      Run sample_env (sample_apu 2 7 3 True) = Run_loop sample_env ctr s \<and>
      ctr = currentCycle s - previousCycle s \<and>
      Run_pass sample_env 2 (5, sample_apu 2 7 3 True) = (currentCycle s' - previousCycle s', s') \<and>
      previousCycle s' = previousCycle s + fst (frameCounter_Run_result sample_env ctr (world s))"
proof -
  define s0 where "s0 = sample_apu 2 7 3 True"
  define c where "c = Run_pass sample_env (Suc 0) (currentCycle s0 - previousCycle s0, s0)"
  have d: "currentCycle s0 - previousCycle s0 = 5" by (simp add: s0_def sample_apu_def)
  have le: "previousCycle s0 \<le> currentCycle s0" by (simp add: s0_def sample_apu_def)
  have gap: "currentCycle s0 - previousCycle s0 < 0x80000000" by (simp add: d)
  have head: "Run_pass sample_env (Suc 0) (currentCycle s0 - previousCycle s0, s0) = (fst c, snd c)"
    by (simp add: c_def)
  have enter: "previousCycle (snd c) < currentCycle (snd c)"
    by (simp add: c_def s0_def sample_simps)
  from Run_every_pass [OF sample_contract le gap head enter] head enter d
  show ?thesis unfolding s0_def [symmetric] by (auto simp: numeral_2_eq_2)
qed

text \<open>
  Claim C3. \<open>ReadRAM\<close> first runs the APU, until \<open>_previousCycle < _currentCycle\<close> is
  false; if \<open>Run\<close> returns the state \<open>s1\<close>, the byte
  read has in bits 0 to 4 the status of square 0, square 1, triangle, noise and delta
  modulation in \<open>s1\<close>, bit 5 clear, in bit 6 the frame counter's IRQ flag and in bit 7 the
  DMC's IRQ flag of \<open>s1\<close>; the state left is \<open>s1\<close> with the frame counter's IRQ flag
  cleared, the DMC's flag and the rest of the world as they were. If \<open>Run\<close> does not
  return, neither does the read; between two operations, with a frame counter that
  keeps the contract, the read returns.
\<close>

theorem ReadRAM_status:
  "(frameCounter_contract env \<and> between_operations s \<longrightarrow> ReadRAM env addr s \<noteq> None) \<and>
   (case Run env s of
     None \<Rightarrow> ReadRAM env addr s = None
   | Some s1 \<Rightarrow>
       (\<exists>v s'. ReadRAM env addr s = Some (v, s') \<and>
          bit v 0 = channel_GetStatus env squareChannel0 (world s1) \<and>
          bit v 1 = channel_GetStatus env squareChannel1 (world s1) \<and>
          bit v 2 = channel_GetStatus env triangleChannel (world s1) \<and>
          bit v 3 = channel_GetStatus env noiseChannel (world s1) \<and>
          bit v 4 = channel_GetStatus env deltaModulationChannel (world s1) \<and>
          \<not> bit v 5 \<and>
          bit v 6 = HasIRQSource IRQ_FrameCounter s1 \<and>
          bit v 7 = HasIRQSource IRQ_DMC s1 \<and>
          s' = ClearIRQSource IRQ_FrameCounter s1 \<and>
          \<not> HasIRQSource IRQ_FrameCounter s' \<and>
          HasIRQSource IRQ_DMC s' = HasIRQSource IRQ_DMC s1 \<and>
          hw (world s') = hw (world s1) \<and>
          calls s' = calls s1 @ [CPU_ClearIRQSource IRQ_FrameCounter] \<and>
          currentCycle s' = currentCycle s \<and> \<not> previousCycle s' < currentCycle s'))"
  (is "?returns \<and> ?result")
proof (rule conjI)
  show ?returns using ReadRAM_between [of env s addr] by auto
  show ?result
  proof (cases "Run env s")
    case None
    then show ?thesis by (simp add: ReadRAM_def)
  next
    case (Some s1)
    define v :: "8 word" where "v = 0 OR (if channel_GetStatus env squareChannel0 (world s1) then 0x01 else 0x00)
       OR (if channel_GetStatus env squareChannel1 (world s1) then 0x02 else 0x00)
       OR (if channel_GetStatus env triangleChannel (world s1) then 0x04 else 0x00)
       OR (if channel_GetStatus env noiseChannel (world s1) then 0x08 else 0x00)
       OR (if channel_GetStatus env deltaModulationChannel (world s1) then 0x10 else 0x00)
       OR (if HasIRQSource IRQ_FrameCounter s1 then 0x40 else 0x00)
       OR (if HasIRQSource IRQ_DMC s1 then 0x80 else 0x00)"
    have rd: "ReadRAM env addr s = Some (v, ClearIRQSource IRQ_FrameCounter s1)"
      using Some by (simp add: ReadRAM_def v_def Let_def)
    note bits = status_bits [OF v_def]
    have "\<not> HasIRQSource IRQ_FrameCounter (ClearIRQSource IRQ_FrameCounter s1)"
      "HasIRQSource IRQ_DMC (ClearIRQSource IRQ_FrameCounter s1) = HasIRQSource IRQ_DMC s1"
      by (simp_all add: HasIRQSource_def)
    with rd bits Some Run_frame(2,4) [OF Some] show ?thesis by simp
  qed
qed

theorem ReadRAM_status_witness:
  "\<exists>v s'. ReadRAM sample_env 0x4015 (sample_apu 2 7 3 True) = Some (v, s') \<and>
     \<not> bit v 0 \<and> bit v 2 \<and> bit v 6 \<and> \<not> bit v 7 \<and> \<not> HasIRQSource IRQ_FrameCounter s'"
proof -
  have "\<exists>s1. Run sample_env (sample_apu 2 7 3 True) = Some s1 \<and>
          \<not> channel_GetStatus sample_env squareChannel0 (world s1) \<and>
          channel_GetStatus sample_env triangleChannel (world s1) \<and>
          HasIRQSource IRQ_FrameCounter s1 \<and> \<not> HasIRQSource IRQ_DMC s1"
    by (simp add: sample_simps HasIRQSource_def)
  moreover have "between_operations (sample_apu 2 7 3 True)"
    by (simp add: between_operations_def sample_apu_def)
  ultimately show ?thesis
    using ReadRAM_status [where env = sample_env and s = "sample_apu 2 7 3 True" and addr = "0x4015"]
      sample_contract
    by auto
qed

text \<open>
  Claim C4. \<open>WriteRAM\<close> with the byte \<open>val\<close> first runs the APU (only advancing calls
  are made until \<open>Run\<close> returns \<open>s1\<close>), then clears the DMC's IRQ flag, and only then
  calls \<open>SetEnabled\<close> on square 0, square 1, triangle, noise and delta modulation, in this
  order, with \<open>(val & mask) != 0\<close> for the masks 0x01, 0x02, 0x04, 0x08, 0x10: the
  enabling calls act on the world in which the DMC's flag is already clear. Between two
  operations, with a frame counter that keeps the contract, the write returns.
\<close>

theorem WriteRAM_enables:
  "(frameCounter_contract env \<and> between_operations s \<longrightarrow> WriteRAM env addr val s \<noteq> None) \<and>
   (case Run env s of
     None \<Rightarrow> WriteRAM env addr val s = None
   | Some s1 \<Rightarrow>
       (\<exists>s' l. WriteRAM env addr val s = Some s' \<and>
          l = [Channel_SetEnabled squareChannel0 (val AND 0x01 \<noteq> 0),
               Channel_SetEnabled squareChannel1 (val AND 0x02 \<noteq> 0),
               Channel_SetEnabled triangleChannel (val AND 0x04 \<noteq> 0),
               Channel_SetEnabled noiseChannel (val AND 0x08 \<noteq> 0),
               Channel_SetEnabled deltaModulationChannel (val AND 0x10 \<noteq> 0)] \<and>
          calls s' = calls s1 @ CPU_ClearIRQSource IRQ_DMC # l \<and>
          world s' = fold (perform env) l (world (ClearIRQSource IRQ_DMC s1)) \<and>
          \<not> HasIRQSource IRQ_DMC (ClearIRQSource IRQ_DMC s1) \<and>
          (\<exists>l1. calls s1 = calls s @ l1 \<and> list_all advances l1) \<and>
          currentCycle s' = currentCycle s \<and> \<not> previousCycle s' < currentCycle s'))"
  (is "?returns \<and> ?result")
proof (rule conjI)
  show ?returns using WriteRAM_between [of env s addr val] by auto
  show ?result
  proof (cases "Run env s")
    case None
    then show ?thesis by (simp add: WriteRAM_def)
  next
    case (Some s1)
    from Run_frame(5) [OF Some] obtain l1 where "calls s1 = calls s @ l1" "list_all advances l1"
      by blast
    with Some Run_frame(2,4) [OF Some] show ?thesis
      by (simp add: WriteRAM_def Let_def and_single_bit HasIRQSource_def)
  qed
qed

theorem WriteRAM_enables_witness:
  "\<exists>s'. WriteRAM sample_env 0x4015 0x11 (sample_apu 7 7 3 True) = Some s' \<and>
     calls s' = [CPU_ClearIRQSource IRQ_DMC,
       Channel_SetEnabled squareChannel0 True, Channel_SetEnabled squareChannel1 False,
       Channel_SetEnabled triangleChannel False, Channel_SetEnabled noiseChannel False,
       Channel_SetEnabled deltaModulationChannel True]"
proof -
  have "Run sample_env (sample_apu 7 7 3 True) = Some (sample_apu 7 7 3 True)"
    by (simp add: Run_def Run_loop_exit sample_apu_def)
  moreover have "between_operations (sample_apu 7 7 3 True)"
    by (simp add: between_operations_def sample_apu_def)
  ultimately show ?thesis
    using WriteRAM_enables [where env = sample_env and s = "sample_apu 7 7 3 True"
        and addr = "0x4015" and val = "0x11"] sample_contract
    by (auto simp: sample_apu_def)
qed

text \<open>
  Claim C5, as stated, has the flush push the samples to the audio device. The push is
  guarded by \<open>if(APU::AudioDevice)\<close>: with no device registered, the controller at cycle
  9999 makes the flush (the clock is back at 0) and its last call is \<open>read_samples\<close>;
  nothing is handed to a device.
\<close>

theorem Exec_flush_without_device:
  "map_option calls (Exec sample_env (sample_apu 9999 9999 0 False)) =
     Some [FrameCounter_Run 1,
           Channel_Run squareChannel0 10000, Channel_Run squareChannel1 10000,
           Channel_Run noiseChannel 10000, Channel_Run triangleChannel 10000,
           Channel_Run deltaModulationChannel 10000,
           Channel_EndFrame squareChannel0, Channel_EndFrame squareChannel1,
           Channel_EndFrame triangleChannel, Channel_EndFrame noiseChannel,
           Channel_EndFrame deltaModulationChannel,
           Blip_end_frame 10000, Blip_read_samples 800] \<and>
   map_option played (Exec sample_env (sample_apu 9999 9999 0 False)) = Some [] \<and>
   map_option currentCycle (Exec sample_env (sample_apu 9999 9999 0 False)) = Some 0"
  by (simp add: Exec_def sample_simps played_def)

text \<open>
  Claim C5, amended. \<open>Exec\<close> adds one to \<open>_currentCycle\<close>. If that makes 10000, it calls
  \<open>Run\<close>, then \<open>EndFrame\<close> on square 0, square 1, triangle, noise and delta modulation,
  then \<open>end_frame(10000)\<close> and \<open>read_samples\<close> for \<open>SamplesPerFrame\<close> samples on the Blip
  buffer, then, if and only if an audio device is registered, \<open>PlayBuffer\<close> with the
  samples read, and sets both cycle counters to 0; if \<open>Run\<close> does not return, neither
  does \<open>Exec\<close>. Otherwise it is \<open>Run\<close> when \<open>NeedToRun(_currentCycle)\<close> holds, and nothing
  more than the increment when it does not. Between two operations, with a frame
  counter that keeps the contract, \<open>Exec\<close> returns.
\<close>

theorem Exec_step:
  "(frameCounter_contract env \<and> between_operations s \<longrightarrow> Exec env s \<noteq> None) \<and>
   (\<exists>s1. s1 = s\<lparr>currentCycle := currentCycle s + 1\<rparr> \<and>
     (if currentCycle s1 = 10000 then
        (case Run env s1 of
           None \<Rightarrow> Exec env s = None
         | Some s2 \<Rightarrow>
             (\<exists>s' l sampleCount.
                Exec env s = Some s' \<and>
                l = [Channel_EndFrame squareChannel0, Channel_EndFrame squareChannel1,
                     Channel_EndFrame triangleChannel, Channel_EndFrame noiseChannel,
                     Channel_EndFrame deltaModulationChannel, Blip_end_frame 10000] \<and>
                sampleCount = blip_read_samples_result env (SamplesPerFrame env)
                                (fold (perform env) l (world s2)) \<and>
                calls s' = calls s2 @ l @ Blip_read_samples (SamplesPerFrame env) #
                  (if audioDevice s
                   then [Audio_PlayBuffer (of_nat (sampleCount * BitsPerSample env div 8))]
                   else []) \<and>
                world s' = fold (perform env) (drop (length (calls s2)) (calls s')) (world s2) \<and>
                (\<exists>l1. calls s2 = calls s @ l1 \<and> list_all advances l1) \<and>
                currentCycle s' = 0 \<and> previousCycle s' = 0))
      else if NeedToRun env (currentCycle s1) s1 then Exec env s = Run env s1
      else Exec env s = Some s1))"
  (is "?returns \<and> ?result")
proof (rule conjI)
  show ?returns using Exec_between [of env s] by auto
  show ?result
  proof -
    define s1 where "s1 = s\<lparr>currentCycle := currentCycle s + 1\<rparr>"
    have "if currentCycle s1 = 10000 then
          (case Run env s1 of
             None \<Rightarrow> Exec env s = None
           | Some s2 \<Rightarrow>
               (\<exists>s' l sampleCount.
                  Exec env s = Some s' \<and>
                  l = [Channel_EndFrame squareChannel0, Channel_EndFrame squareChannel1,
                       Channel_EndFrame triangleChannel, Channel_EndFrame noiseChannel,
                       Channel_EndFrame deltaModulationChannel, Blip_end_frame 10000] \<and>
                  sampleCount = blip_read_samples_result env (SamplesPerFrame env)
                                  (fold (perform env) l (world s2)) \<and>
                  calls s' = calls s2 @ l @ Blip_read_samples (SamplesPerFrame env) #
                    (if audioDevice s
                     then [Audio_PlayBuffer (of_nat (sampleCount * BitsPerSample env div 8))]
                     else []) \<and>
                  world s' = fold (perform env) (drop (length (calls s2)) (calls s')) (world s2) \<and>
                  (\<exists>l1. calls s2 = calls s @ l1 \<and> list_all advances l1) \<and>
                  currentCycle s' = 0 \<and> previousCycle s' = 0))
        else if NeedToRun env (currentCycle s1) s1 then Exec env s = Run env s1
        else Exec env s = Some s1"
    proof (cases "currentCycle s1 = 10000")
      case False
      then show ?thesis
        unfolding Exec_def Let_def unfolding s1_def [symmetric] by simp
    next
      case True
      show ?thesis
      proof (cases "Run env s1")
        case None
        with True show ?thesis
          unfolding Exec_def Let_def unfolding s1_def [symmetric] by simp
      next
        case (Some s2)
        from Run_frame [OF Some] obtain l1 where f: "currentCycle s2 = currentCycle s1"
          "audioDevice s2 = audioDevice s1" "calls s2 = calls s @ l1" "list_all advances l1"
          by (auto simp: s1_def)
        have d: "audioDevice s1 = audioDevice s" by (simp add: s1_def)
        show ?thesis
          unfolding Exec_def Let_def unfolding s1_def [symmetric]
          using True Some f d by simp
      qed
    qed
    then show ?thesis unfolding s1_def by blast
  qed
qed

theorem Exec_step_witness:
  "map_option played (Exec sample_env (sample_apu 9999 9999 0 True)) = Some [Audio_PlayBuffer 1600] \<and>
   map_option currentCycle (Exec sample_env (sample_apu 9999 9999 0 True)) = Some 0 \<and>
   map_option previousCycle (Exec sample_env (sample_apu 9999 9999 0 True)) = Some 0 \<and>
   Exec sample_env (sample_apu 2 4 3 True) = Run sample_env (sample_apu 2 5 3 True) \<and>
   Exec sample_env (sample_apu 2 3 3 True) = Some (sample_apu 2 4 3 True)"
proof -
  have r: "\<exists>s2. Run sample_env (sample_apu 9999 10000 0 True) = Some s2 \<and>
     calls s2 = [FrameCounter_Run 1,
           Channel_Run squareChannel0 10000, Channel_Run squareChannel1 10000,
           Channel_Run noiseChannel 10000, Channel_Run triangleChannel 10000,
           Channel_Run deltaModulationChannel 10000]"
    by (simp add: sample_simps)
  have u: "(sample_apu 9999 9999 0 True)\<lparr>currentCycle := currentCycle (sample_apu 9999 9999 0 True) + 1\<rparr>
      = sample_apu 9999 10000 0 True"
      "(sample_apu 2 4 3 True)\<lparr>currentCycle := currentCycle (sample_apu 2 4 3 True) + 1\<rparr>
      = sample_apu 2 5 3 True"
      "(sample_apu 2 3 3 True)\<lparr>currentCycle := currentCycle (sample_apu 2 3 3 True) + 1\<rparr>
      = sample_apu 2 4 3 True"
    by (simp_all add: sample_apu_def)
  have n: "NeedToRun sample_env 5 (sample_apu 2 5 3 True)"
    "\<not> NeedToRun sample_env 4 (sample_apu 2 4 3 True)"
    by (simp_all add: NeedToRun_def sample_apu_def sample_env_def sample_event_def)
  have c: "currentCycle (sample_apu 9999 10000 0 True) = 10000"
    "currentCycle (sample_apu 2 5 3 True) = 5" "currentCycle (sample_apu 2 4 3 True) = 4"
    "audioDevice (sample_apu 9999 9999 0 True)"
    by (simp_all add: sample_apu_def)
  have k: "blip_read_samples_result sample_env = (\<lambda>n w. n)" "SamplesPerFrame sample_env = 800"
    "BitsPerSample sample_env = 16"
    by (simp_all add: sample_env_def)
  have b: "between_operations (sample_apu 9999 9999 0 True)"
    by (simp add: between_operations_def sample_apu_def)
  from Exec_step [where env = sample_env and s = "sample_apu 9999 9999 0 True"] r
    sample_contract b
  have "map_option played (Exec sample_env (sample_apu 9999 9999 0 True)) = Some [Audio_PlayBuffer 1600] \<and>
   map_option currentCycle (Exec sample_env (sample_apu 9999 9999 0 True)) = Some 0 \<and>
   map_option previousCycle (Exec sample_env (sample_apu 9999 9999 0 True)) = Some 0"
    unfolding u by (auto simp: c k played_def)
  moreover from Exec_step [where env = sample_env and s = "sample_apu 2 4 3 True"]
  have "Exec sample_env (sample_apu 2 4 3 True) = Run sample_env (sample_apu 2 5 3 True)"
    unfolding u by (simp add: c n)
  moreover from Exec_step [where env = sample_env and s = "sample_apu 2 3 3 True"]
  have "Exec sample_env (sample_apu 2 3 3 True) = Some (sample_apu 2 4 3 True)"
    unfolding u by (simp add: c n)
  ultimately show ?thesis by blast
qed

text \<open>
  Claim C6. With a frame counter that keeps the contract, every sequence of operations
  from a reset runs to its end, and in the state it reaches
  \<open>0 \<le> _previousCycle \<le> _currentCycle \<le> 10000\<close>.
\<close>

theorem cycles_invariant:
  assumes "frameCounter_contract env"
  shows "\<exists>s. operate_all env ops (Reset env softReset s0) = Some s \<and>
           0 \<le> unat (previousCycle s) \<and> previousCycle s \<le> currentCycle s \<and>
           currentCycle s \<le> 10000"
proof -
  from operate_all_between [OF assms Reset_between] obtain s where
    "operate_all env ops (Reset env softReset s0) = Some s" "between_operations s" by blast
  then show ?thesis by (auto simp: between_operations_def)
qed

theorem cycles_invariant_witness:
  "\<exists>s. operate_all sample_env
          [Op_Exec, Op_Exec, Op_WriteRAM 0x4015 0x1F, Op_Exec, Op_ReadRAM 0x4015, Op_Exec]
          (Reset sample_env False (sample_apu 2 7 3 True)) = Some s \<and>
        0 \<le> unat (previousCycle s) \<and> previousCycle s \<le> currentCycle s \<and>
        currentCycle s \<le> 10000"
  using cycles_invariant [OF sample_contract] by blast

text \<open>
  Claim C7. On every frame event \<open>FrameCounterTick\<close> clocks the envelopes of both square
  channels and of the noise channel and the linear counter of the triangle channel; on a
  half frame it then clocks the length counters of the two square channels, the triangle
  and the noise channel, and the sweep units of the two square channels. These are all
  the calls it makes; none is on the delta modulation channel.
\<close>

theorem FrameCounterTick_clocks:
  "\<exists>l. l = [Channel_TickEnvelope squareChannel0, Channel_TickEnvelope squareChannel1,
            Channel_TickLinearCounter triangleChannel, Channel_TickEnvelope noiseChannel] @
           (if type = HalfFrame
            then [Channel_TickLengthCounter squareChannel0, Channel_TickLengthCounter squareChannel1,
                  Channel_TickLengthCounter triangleChannel, Channel_TickLengthCounter noiseChannel,
                  Channel_TickSweep squareChannel0, Channel_TickSweep squareChannel1]
            else []) \<and>
       calls (FrameCounterTick env type s) = calls s @ l \<and>
       world (FrameCounterTick env type s) = fold (perform env) l (world s) \<and>
       (\<forall>c \<in> set l. callee c \<noteq> Some deltaModulationChannel)"
  by (simp add: FrameCounterTick_def Let_def)

theorem FrameCounterTick_clocks_witness:
  "calls (FrameCounterTick sample_env QuarterFrame (sample_apu 2 7 3 True)) =
     [Channel_TickEnvelope squareChannel0, Channel_TickEnvelope squareChannel1,
      Channel_TickLinearCounter triangleChannel, Channel_TickEnvelope noiseChannel] \<and>
   calls (FrameCounterTick sample_env HalfFrame (sample_apu 2 7 3 True)) =
     [Channel_TickEnvelope squareChannel0, Channel_TickEnvelope squareChannel1,
      Channel_TickLinearCounter triangleChannel, Channel_TickEnvelope noiseChannel,
      Channel_TickLengthCounter squareChannel0, Channel_TickLengthCounter squareChannel1,
      Channel_TickLengthCounter triangleChannel, Channel_TickLengthCounter noiseChannel,
      Channel_TickSweep squareChannel0, Channel_TickSweep squareChannel1]"
  using FrameCounterTick_clocks [where type = QuarterFrame and env = sample_env
        and s = "sample_apu 2 7 3 True"]
    FrameCounterTick_clocks [where type = HalfFrame and env = sample_env
        and s = "sample_apu 2 7 3 True"]
  by (simp add: sample_apu_def)

text \<open>
  Claim C8. \<open>NeedToRun(c)\<close> returns true exactly when \<open>ApuLengthCounter::NeedToRun\<close>
  does (a length counter has a change pending), or the frame counter's IRQ falls within
  \<open>c - _previousCycle\<close> cycles, or the delta modulation channel's IRQ falls within
  \<open>c - _previousCycle\<close> cycles. The difference is taken in 32 bits, unsigned.
\<close>

theorem NeedToRun_iff:
  "NeedToRun env cycle s \<longleftrightarrow>
     lengthCounter_NeedToRun env (world s) \<or>
     frameCounter_IrqPending env (cycle - previousCycle s) (world s) \<or>
     dmc_IrqPending env (cycle - previousCycle s) (world s)"
  by (simp add: NeedToRun_def Let_def)

theorem NeedToRun_iff_witness:
  "NeedToRun sample_env 5 (sample_apu 2 5 3 True) \<and> \<not> NeedToRun sample_env 4 (sample_apu 2 4 3 True)"
  using NeedToRun_iff [where env = sample_env and cycle = 5 and s = "sample_apu 2 5 3 True"]
    NeedToRun_iff [where env = sample_env and cycle = 4 and s = "sample_apu 2 4 3 True"]
  by (simp add: sample_apu_def sample_env_def sample_event_def)

text \<open>
  Claim C9. When \<open>SetNesModel\<close> is called with another model, or with \<open>forceInit\<close>, it
  first calls \<open>Run\<close>: until \<open>Run\<close> has returned (state \<open>s1\<close>) the model is the old one
  and only advancing calls are made. Only then is \<open>_nesModel\<close> set, the Blip buffer
  given the clock rate of the model, and \<open>SetNesModel\<close> called on square 0, square 1,
  triangle, noise, delta modulation and the frame counter. If \<open>Run\<close> does not return,
  nothing is reconfigured; between two operations, with a frame counter that keeps the
  contract, it returns.
\<close>

theorem SetNesModel_runs_first:
  assumes "nesModel s \<noteq> model \<or> forceInit"
  shows "(frameCounter_contract env \<and> between_operations s \<longrightarrow>
            SetNesModel env model forceInit s \<noteq> None) \<and>
         (case Run env s of
           None \<Rightarrow> SetNesModel env model forceInit s = None
         | Some s1 \<Rightarrow>
             (\<exists>s' l. SetNesModel env model forceInit s = Some s' \<and>
                nesModel s1 = nesModel s \<and>
                (\<exists>l1. calls s1 = calls s @ l1 \<and> list_all advances l1) \<and>
                l = [Blip_clock_rate (if model = NTSC then ClockRateNtsc env else ClockRatePal env),
                     Channel_SetNesModel squareChannel0 model,
                     Channel_SetNesModel squareChannel1 model,
                     Channel_SetNesModel triangleChannel model,
                     Channel_SetNesModel noiseChannel model,
                     Channel_SetNesModel deltaModulationChannel model,
                     FrameCounter_SetNesModel model] \<and>
                nesModel s' = model \<and>
                calls s' = calls s1 @ l \<and>
                world s' = fold (perform env) l (world s1) \<and>
                currentCycle s' = currentCycle s \<and> previousCycle s' = previousCycle s1 \<and>
                \<not> previousCycle s' < currentCycle s'))"
  (is "?returns \<and> ?result")
proof (rule conjI)
  show ?returns using SetNesModel_between [of env s model forceInit] by auto
  show ?result
  proof (cases "Run env s")
    case None
    with assms show ?thesis by (simp add: SetNesModel_def)
  next
    case (Some s1)
    from Run_frame [OF Some] obtain l1 where "nesModel s1 = nesModel s"
      "currentCycle s1 = currentCycle s" "\<not> previousCycle s1 < currentCycle s1"
      "calls s1 = calls s @ l1" "list_all advances l1"
      by blast
    with Some assms show ?thesis
      by (simp add: SetNesModel_def Let_def)
  qed
qed

theorem SetNesModel_runs_first_witness:
  "\<exists>s'. SetNesModel sample_env PAL False (sample_apu 2 7 3 True) = Some s' \<and>
      nesModel s' = PAL \<and> previousCycle s' = 7 \<and>
      calls s' =
        [FrameCounter_Run 5,
         Channel_TickEnvelope squareChannel0, Channel_TickEnvelope squareChannel1,
         Channel_TickLinearCounter triangleChannel, Channel_TickEnvelope noiseChannel,
         Channel_TickLengthCounter squareChannel0, Channel_TickLengthCounter squareChannel1,
         Channel_TickLengthCounter triangleChannel, Channel_TickLengthCounter noiseChannel,
         Channel_TickSweep squareChannel0, Channel_TickSweep squareChannel1,
         Channel_Run squareChannel0 5, Channel_Run squareChannel1 5, Channel_Run noiseChannel 5,
         Channel_Run triangleChannel 5, Channel_Run deltaModulationChannel 5,
         FrameCounter_Run 2,
         Channel_Run squareChannel0 7, Channel_Run squareChannel1 7, Channel_Run noiseChannel 7,
         Channel_Run triangleChannel 7, Channel_Run deltaModulationChannel 7,
         Blip_clock_rate 1662607,
         Channel_SetNesModel squareChannel0 PAL, Channel_SetNesModel squareChannel1 PAL,
         Channel_SetNesModel triangleChannel PAL, Channel_SetNesModel noiseChannel PAL,
         Channel_SetNesModel deltaModulationChannel PAL, FrameCounter_SetNesModel PAL]"
proof -
  have m: "nesModel (sample_apu 2 7 3 True) \<noteq> PAL \<or> False" by (simp add: sample_apu_def)
  have "\<exists>s1. Run sample_env (sample_apu 2 7 3 True) = Some s1 \<and> previousCycle s1 = 7 \<and>
     calls s1 = [FrameCounter_Run 5,
         Channel_TickEnvelope squareChannel0, Channel_TickEnvelope squareChannel1,
         Channel_TickLinearCounter triangleChannel, Channel_TickEnvelope noiseChannel,
         Channel_TickLengthCounter squareChannel0, Channel_TickLengthCounter squareChannel1,
         Channel_TickLengthCounter triangleChannel, Channel_TickLengthCounter noiseChannel,
         Channel_TickSweep squareChannel0, Channel_TickSweep squareChannel1,
         Channel_Run squareChannel0 5, Channel_Run squareChannel1 5, Channel_Run noiseChannel 5,
         Channel_Run triangleChannel 5, Channel_Run deltaModulationChannel 5,
         FrameCounter_Run 2,
         Channel_Run squareChannel0 7, Channel_Run squareChannel1 7, Channel_Run noiseChannel 7,
         Channel_Run triangleChannel 7, Channel_Run deltaModulationChannel 7]"
    by (simp add: sample_simps)
  moreover have "between_operations (sample_apu 2 7 3 True)"
    by (simp add: between_operations_def sample_apu_def)
  ultimately show ?thesis
    using SetNesModel_runs_first [OF m, where env = sample_env] sample_contract
    by (auto simp: sample_env_def)
qed

text \<open>
  Claim C10. \<open>SetNesModel\<close> with the model already configured and \<open>forceInit\<close> false
  returns the state it was given: the members, the world and the log of calls are the
  same, so \<open>Run\<close> was not called, the clock rate was not set, and no channel and not the
  frame counter was reconfigured.
\<close>

theorem SetNesModel_unchanged: "SetNesModel env (nesModel s) False s = Some s"
  by (simp add: SetNesModel_def)

theorem SetNesModel_unchanged_witness:
  "SetNesModel sample_env NTSC False (sample_apu 2 7 3 True) = Some (sample_apu 2 7 3 True)"
  using SetNesModel_unchanged [where env = sample_env and s = "sample_apu 2 7 3 True"]
  by (simp add: sample_apu_def)

end
